theory Spec2Isabelle
  imports Complex_Main "HOL-Library.Word"
begin

text \<open>
  A model of the chat page \<open>src/pages/landing.jsx\<close>: the backend locator, the
  response formatter, the tool directory and the chat session. The source is
  JavaScript; its strings, regular expressions and asynchronous handlers are
  modelled by the functions below, which keep the names of the source.
\<close>

section \<open>JavaScript strings\<close>

text \<open>
  A JavaScript string is a sequence of 16-bit code units; \<open>length\<close> counts code units.
  The page source holds several literals outside ASCII (the bullet marker and the
  warning sign are stored as the code units found in the source file), so code units
  are modelled at their full width.
\<close>

type_synonym code_unit = "16 word"
type_synonym jsstring = "code_unit list"

definition js :: "string \<Rightarrow> jsstring" where
  "js s = map of_char s"

fun starts_with :: "jsstring \<Rightarrow> jsstring \<Rightarrow> bool" where
  "starts_with s [] = True"
| "starts_with [] (p # ps) = False"
| "starts_with (c # cs) (p # ps) = (c = p \<and> starts_with cs ps)"

text \<open>\<open>String.prototype.includes\<close>: the needle occurs at some position.\<close>

fun includes_js :: "jsstring \<Rightarrow> jsstring \<Rightarrow> bool" where
  "includes_js [] p = (p = [])"
| "includes_js (c # cs) p = (starts_with (c # cs) p \<or> includes_js cs p)"

text \<open>
  White space and line terminators of ECMAScript, the code units that
  \<open>String.prototype.trim\<close> strips.
\<close>

definition is_space :: "code_unit \<Rightarrow> bool" where
  "is_space c =
     (c = 0x09 \<or> c = 0x0A \<or> c = 0x0B \<or> c = 0x0C \<or> c = 0x0D \<or> c = 0x20 \<or> c = 0xA0
      \<or> c = 0x1680 \<or> (0x2000 \<le> c \<and> c \<le> 0x200A) \<or> c = 0x2028 \<or> c = 0x2029
      \<or> c = 0x202F \<or> c = 0x205F \<or> c = 0x3000 \<or> c = 0xFEFF)"

definition trim :: "jsstring \<Rightarrow> jsstring" where
  "trim s = rev (dropWhile is_space (rev (dropWhile is_space s)))"

text \<open>
  \<open>String.prototype.replace\<close> with a string pattern: only the first occurrence is
  replaced. The replacement used by the page is the empty string, which holds no
  \<open>$\<close> pattern.
\<close>

fun replace_first :: "jsstring \<Rightarrow> jsstring \<Rightarrow> jsstring \<Rightarrow> jsstring" where
  "replace_first [] p r = (if p = [] then r else [])"
| "replace_first (c # cs) p r =
     (if starts_with (c # cs) p then r @ drop (length p) (c # cs)
      else c # replace_first cs p r)"

text \<open>\<open>Array.prototype.join\<close> on an array of strings.\<close>

fun join :: "jsstring \<Rightarrow> jsstring list \<Rightarrow> jsstring" where
  "join sep [] = []"
| "join sep [x] = x"
| "join sep (x # y # ys) = x @ sep @ join sep (y # ys)"

text \<open>Decimal rendering of a non-negative integer inside a template literal.\<close>

fun decimal :: "nat \<Rightarrow> jsstring" where
  "decimal n =
     (if n < 10 then [0x30 + of_nat n]
      else decimal (n div 10) @ [0x30 + of_nat (n mod 10)])"

declare decimal.simps [simp del]

section \<open>Regular expressions as backtracking matchers\<close>

text \<open>
  A matcher is run on the rest of the input and returns the lengths of all matches
  that start there, in the order in which the backtracking engine of ECMAScript tries
  them: the head of the list is the match the engine reports. The page uses no
  anchors, look-around or back-references, so a match depends on the rest of the
  input only.
\<close>

type_synonym matcher = "jsstring \<Rightarrow> nat list"

definition re_class :: "(code_unit \<Rightarrow> bool) \<Rightarrow> matcher" where
  "re_class P s = (case s of [] \<Rightarrow> [] | c # _ \<Rightarrow> if P c then [1] else [])"

text \<open>Greedy \<open>*\<close> on a character class: the longest run first, the empty match last.\<close>

fun re_star :: "(code_unit \<Rightarrow> bool) \<Rightarrow> matcher" where
  "re_star P [] = [0]"
| "re_star P (c # cs) = (if P c then map Suc (re_star P cs) @ [0] else [0])"

definition re_seq :: "matcher \<Rightarrow> matcher \<Rightarrow> matcher" where
  "re_seq m1 m2 s = concat (map (\<lambda>n. map ((+) n) (m2 (drop n s))) (m1 s))"

definition re_alt :: "matcher \<Rightarrow> matcher \<Rightarrow> matcher" where
  "re_alt m1 m2 s = m1 s @ m2 s"

definition re_plus :: "(code_unit \<Rightarrow> bool) \<Rightarrow> matcher" where
  "re_plus P = re_seq (re_class P) (re_star P)"

definition re_opt :: "matcher \<Rightarrow> matcher" where
  "re_opt m s = m s @ [0]"

definition re_lit :: "jsstring \<Rightarrow> matcher" where
  "re_lit w s = (if starts_with s w then [length w] else [])"

text \<open>
  Matching under the \<open>i\<close> flag compares canonicalized code units. Without the \<open>u\<close>
  flag a code unit outside ASCII never canonicalizes into ASCII. The only pattern
  characters matched under the flag are those of a site name, which are ASCII
  (lemma \<open>website_match_ascii\<close>), and the full stop; against these,
  canonicalization is upper-casing of \<open>a\<close> to \<open>z\<close>.
\<close>

definition canonicalize :: "code_unit \<Rightarrow> code_unit" where
  "canonicalize c = (if 0x61 \<le> c \<and> c \<le> 0x7A then c - 0x20 else c)"

fun starts_with_ci :: "jsstring \<Rightarrow> jsstring \<Rightarrow> bool" where
  "starts_with_ci s [] = True"
| "starts_with_ci [] (p # ps) = False"
| "starts_with_ci (c # cs) (p # ps) =
     (canonicalize c = canonicalize p \<and> starts_with_ci cs ps)"

definition re_lit_ci :: "jsstring \<Rightarrow> matcher" where
  "re_lit_ci w s = (if starts_with_ci s w then [length w] else [])"

text \<open>
  \<open>RegExp.prototype.exec\<close> without the sticky flag: the leftmost start position at
  which the matcher succeeds, with the length of its first match.
\<close>

fun search :: "matcher \<Rightarrow> jsstring \<Rightarrow> (nat \<times> nat) option" where
  "search m [] = (case m [] of [] \<Rightarrow> None | n # _ \<Rightarrow> Some (0, n))"
| "search m (c # cs) =
     (case m (c # cs) of
        [] \<Rightarrow> map_option (\<lambda>(i, n). (Suc i, n)) (search m cs)
      | n # _ \<Rightarrow> Some (0, n))"

text \<open>
  The loop of \<open>String.prototype.match\<close> with a global pattern: every match in turn,
  the next search starting where the last match ended, one code unit later after an
  empty match, and stopping once that index passes the end of the input.
\<close>

function match_all :: "matcher \<Rightarrow> jsstring \<Rightarrow> jsstring list" where
  "match_all m s =
     (case search m s of
        None \<Rightarrow> []
      | Some (i, n) \<Rightarrow>
          (let next = (if n = 0 then i + 1 else i + n)
           in take n (drop i s) #
              (if length s < next then [] else match_all m (drop next s))))"
  by pat_completeness auto
termination
  by (relation "measure (\<lambda>(m, s). length s)") (auto split: if_splits)

declare match_all.simps [simp del]

text \<open>\<open>content.match(/.../g)\<close> is \<open>null\<close> when nothing matches.\<close>

definition match_global :: "matcher \<Rightarrow> jsstring \<Rightarrow> jsstring list option" where
  "match_global m s = (case match_all m s of [] \<Rightarrow> None | x # xs \<Rightarrow> Some (x # xs))"

text \<open>
  \<open>String.prototype.split\<close> with a pattern and no limit. \<open>acc\<close> is the text since the
  end of the last separator, \<open>s\<close> the input from the current position; the pattern
  is tried at the current position only, and an empty match directly after the
  last separator does not split.
\<close>

function split_loop :: "matcher \<Rightarrow> jsstring \<Rightarrow> jsstring \<Rightarrow> jsstring list" where
  "split_loop m acc [] = [acc]"
| "split_loop m acc (c # cs) =
     (case m (c # cs) of
        [] \<Rightarrow> split_loop m (acc @ [c]) cs
      | n # _ \<Rightarrow>
          (let e = min n (length (c # cs))
           in if e = 0 \<and> acc = [] then split_loop m (acc @ [c]) cs
              else acc # split_loop m [] (drop e (c # cs))))"
  by pat_completeness auto
termination
  by (relation "measure (\<lambda>(m, acc, s). 2 * length s + (if acc = [] then 0 else 1))")
    (auto split: if_splits)

definition split :: "matcher \<Rightarrow> jsstring \<Rightarrow> jsstring list" where
  "split m s = (if s = [] then (if m [] = [] then [] # [] else []) else split_loop m [] s)"

section \<open>The response formatter\<close>

definition is_upper :: "code_unit \<Rightarrow> bool" where
  "is_upper c = (0x41 \<le> c \<and> c \<le> 0x5A)"

definition is_lower :: "code_unit \<Rightarrow> bool" where
  "is_lower c = (0x61 \<le> c \<and> c \<le> 0x7A)"

definition is_digit :: "code_unit \<Rightarrow> bool" where
  "is_digit c = (0x30 \<le> c \<and> c \<le> 0x39)"

text \<open>The class \<open>\w\<close>.\<close>

definition is_word :: "code_unit \<Rightarrow> bool" where
  "is_word c = (is_upper c \<or> is_lower c \<or> is_digit c \<or> c = 0x5F)"

text \<open>The class \<open>[.!?]\<close>.\<close>

definition is_punct :: "code_unit \<Rightarrow> bool" where
  "is_punct c = (c = 0x2E \<or> c = 0x21 \<or> c = 0x3F)"

text \<open>The class \<open>[^.]\<close> under the \<open>i\<close> flag.\<close>

definition not_dot :: "code_unit \<Rightarrow> bool" where
  "not_dot c = (canonicalize c \<noteq> canonicalize 0x2E)"

definition is_dot :: "code_unit \<Rightarrow> bool" where
  "is_dot c = (canonicalize c = canonicalize 0x2E)"

text \<open>
  The bullet marker as the source file stores it: the three code units
  U+00E2, U+20AC, U+00A2.
\<close>

definition bullet :: jsstring where
  "bullet = [0xE2, 0x20AC, 0xA2]"

definition bold_marker :: jsstring where
  "bold_marker = js ''**''"

definition paragraph_break :: jsstring where
  "paragraph_break = [0x0A, 0x0A]"

text \<open>\<open>content.split(/[.!?]+/).filter((s) => s.trim().length > 0)\<close>\<close>

definition sentences :: "jsstring \<Rightarrow> jsstring list" where
  "sentences content =
     filter (\<lambda>s. 0 < length (trim s)) (split (re_plus is_punct) content)"

text \<open>
  \<open>/(\w+\.com|\w+\.org|\w+\.ai|\w+Face|\w+Net|[A-Z][a-z]+[A-Z][a-z]+)/g\<close>
\<close>

definition website_re :: matcher where
  "website_re =
     re_alt (re_seq (re_plus is_word) (re_lit (js ''.com'')))
    (re_alt (re_seq (re_plus is_word) (re_lit (js ''.org'')))
    (re_alt (re_seq (re_plus is_word) (re_lit (js ''.ai'')))
    (re_alt (re_seq (re_plus is_word) (re_lit (js ''Face'')))
    (re_alt (re_seq (re_plus is_word) (re_lit (js ''Net'')))
      (re_seq (re_class is_upper) (re_seq (re_plus is_lower)
        (re_seq (re_class is_upper) (re_plus is_lower))))))))"

text \<open>
  \<open>new RegExp(`([^.]*${escaped site}[^.]*\\.?)`, "i")\<close>: every metacharacter of
  \<open>site\<close> is escaped before it is spliced into the pattern, so the middle part
  matches the code units of \<open>site\<close> themselves, up to letter case. The only group
  spans the whole pattern, so \<open>match[1]\<close> is the matched text.
\<close>

definition siteRegex :: "jsstring \<Rightarrow> matcher" where
  "siteRegex site =
     re_seq (re_star not_dot) (re_seq (re_lit_ci site)
       (re_seq (re_star not_dot) (re_opt (re_class is_dot))))"

text \<open>\<open>content.match(siteRegex)\<close>, reduced to its first group.\<close>

definition site_match :: "jsstring \<Rightarrow> jsstring \<Rightarrow> jsstring option" where
  "site_match content site =
     map_option (\<lambda>(i, n). take n (drop i content)) (search (siteRegex site) content)"

definition list_header :: jsstring where
  "list_header = js ''I found several great options:'' @ [0x0A, 0x0A]"

definition list_footer :: jsstring where
  "list_footer =
     0x0A # js ''Would you like me to provide more details about any of these options?''"

text \<open>One round of the \<open>forEach\<close> over the matches.\<close>

definition add_site :: "jsstring \<Rightarrow> jsstring \<Rightarrow> jsstring \<Rightarrow> jsstring" where
  "add_site content formattedContent site =
     (case site_match content site of
        None \<Rightarrow> formattedContent
      | Some m1 \<Rightarrow>
          formattedContent @ bullet @ js '' **'' @ site @ js ''** - ''
            @ trim (replace_first m1 site []) @ [0x0A])"

definition formatAIResponse :: "jsstring \<Rightarrow> jsstring" where
  "formatAIResponse content =
     (if includes_js content bullet \<or> includes_js content bold_marker
         \<or> includes_js content paragraph_break
      then content
      else
        let sents = sentences content in
        if 3 < length sents \<and> 300 < length content then
          (case match_global website_re content of
             Some websiteMatches \<Rightarrow>
               if 2 < length websiteMatches then
                 foldl (add_site content) list_header websiteMatches @ list_footer
               else
                 (let midPoint = length sents div 2;
                      firstHalf = join (js ''. '') (take midPoint sents) @ js ''.'';
                      secondHalf = join (js ''. '') (drop midPoint sents) @ js ''.''
                  in firstHalf @ [0x0A, 0x0A] @ secondHalf)
           | None \<Rightarrow>
               (let midPoint = length sents div 2;
                    firstHalf = join (js ''. '') (take midPoint sents) @ js ''.'';
                    secondHalf = join (js ''. '') (drop midPoint sents) @ js ''.''
                in firstHalf @ [0x0A, 0x0A] @ secondHalf))
        else content)"

section \<open>The backend locator\<close>

text \<open>\<open>hostname\<close> stands for \<open>window.location.hostname\<close>.\<close>

definition getBackendURL :: "jsstring \<Rightarrow> jsstring" where
  "getBackendURL hostname =
     (if hostname = js ''localhost'' \<or> hostname = js ''127.0.0.1''
      then js ''http://localhost:5000''
      else js ''https://simple-agent-backend.onrender.com'')"

text \<open>The status badge of the header.\<close>

definition status_label :: "jsstring \<Rightarrow> jsstring" where
  "status_label hostname =
     (if hostname = js ''localhost'' then js ''Local'' else js ''Online'')"

section \<open>Component state, errors and responses\<close>

datatype role = User | Bot

record message =
  msg_id :: nat
  msg_type :: role
  content :: jsstring
  timestamp :: jsstring
  toolsUsed :: "jsstring list option"

text \<open>A parsed JSON value; an object is the list of its own properties.\<close>

datatype json =
  JNull
| JBool bool
| JNumber real
| JString jsstring
| JArray "json list"
| JObject "(jsstring \<times> json) list"

record landing_state =
  messages :: "message list"
  inputValue :: jsstring
  isLoading :: bool
  availableTools :: "json list"
  toolsLoading :: bool
  toolsError :: "jsstring option"
  isToolsCollapsibleOpen :: bool

text \<open>\<open>Date.now()\<close> and \<open>new Date().toLocaleTimeString()\<close> at the moment of a call.\<close>

record clock =
  now :: nat
  time_string :: jsstring

record js_error =
  err_name :: jsstring
  err_message :: jsstring

definition new_Error :: "jsstring \<Rightarrow> js_error" where
  "new_Error msg = \<lparr>err_name = js ''Error'', err_message = msg\<rparr>"

text \<open>
  What \<open>await fetch(...)\<close> gives: a rejection, or a response with its \<open>ok\<close> flag, its
  status and the outcome of \<open>await response.json()\<close>, which rejects on a body that
  is not JSON.
\<close>

record 'a response =
  ok :: bool
  status :: nat
  body_json :: "js_error + 'a"

datatype 'a fetch_result = Rejected js_error | Resolved "'a response"

definition initial_state :: "clock \<Rightarrow> landing_state" where
  "initial_state clk =
     \<lparr>messages =
        [\<lparr>msg_id = 1, msg_type = Bot,
          content = js ''Hello! I'' @ [0x27] @ js ''m your AI agent powered by Gemini LLM and Firecrawl tools. I can help you search the web, scrape content, extract data, and provide intelligent responses. What would you like to know?'',
          timestamp = time_string clk, toolsUsed = None\<rparr>],
      inputValue = [], isLoading = False, availableTools = [], toolsLoading = True,
      toolsError = None, isToolsCollapsibleOpen = False\<rparr>"

section \<open>The tool directory\<close>

definition fallback_tools :: "json list" where
  "fallback_tools =
     [JString (js ''firecrawl_scrape''), JString (js ''firecrawl_map''),
      JString (js ''firecrawl_crawl''), JString (js ''firecrawl_check_crawl_status''),
      JString (js ''firecrawl_search''), JString (js ''firecrawl_extract''),
      JString (js ''firecrawl_deep_research''), JString (js ''firecrawl_generate_llmstxt'')]"

text \<open>
  Reading the property \<open>tools\<close> of a parsed body. Reading a property of \<open>null\<close>
  throws the TypeError of the runtime, passed as \<open>te\<close>; on a string, number, boolean
  or array the property is \<open>undefined\<close> (\<open>None\<close>), as on an object without it.
\<close>

definition get_tools :: "js_error \<Rightarrow> json \<Rightarrow> js_error + json option" where
  "get_tools te data =
     (case data of
        JNull \<Rightarrow> Inl te
      | JObject props \<Rightarrow> Inr (map_of props (js ''tools''))
      | _ \<Rightarrow> Inr None)"

fun truthy :: "json option \<Rightarrow> bool" where
  "truthy None = False"
| "truthy (Some JNull) = False"
| "truthy (Some (JBool b)) = b"
| "truthy (Some (JNumber x)) = (x \<noteq> 0)"
| "truthy (Some (JString s)) = (s \<noteq> [])"
| "truthy (Some (JArray xs)) = True"
| "truthy (Some (JObject props)) = True"

fun isArray :: "json option \<Rightarrow> bool" where
  "isArray (Some (JArray xs)) = True"
| "isArray _ = False"

text \<open>The synchronous start of \<open>fetchAvailableTools\<close>, with the URL it requests.\<close>

definition fetchAvailableTools_start ::
  "jsstring \<Rightarrow> landing_state \<Rightarrow> landing_state \<times> jsstring" where
  "fetchAvailableTools_start hostname st =
     (st\<lparr>toolsLoading := True, toolsError := None\<rparr>, getBackendURL hostname @ js ''/tools'')"

text \<open>The \<open>try\<close> block after the request: the array to show, or the error thrown.\<close>

definition tools_try :: "js_error \<Rightarrow> json fetch_result \<Rightarrow> js_error + json list" where
  "tools_try te res =
     (case res of
        Rejected e \<Rightarrow> Inl e
      | Resolved r \<Rightarrow>
          if \<not> ok r then Inl (new_Error (js ''HTTP error! status: '' @ decimal (status r)))
          else
            (case body_json r of
               Inl e \<Rightarrow> Inl e
             | Inr data \<Rightarrow>
                 (case get_tools te data of
                    Inl e \<Rightarrow> Inl e
                  | Inr tools \<Rightarrow>
                      if truthy tools \<and> isArray tools then
                        (case tools of Some (JArray xs) \<Rightarrow> Inr xs
                         | _ \<Rightarrow> Inl (new_Error (js ''Invalid tools data format'')))
                      else Inl (new_Error (js ''Invalid tools data format'')))))"

text \<open>The rest of \<open>fetchAvailableTools\<close>: \<open>try\<close>, \<open>catch\<close> and \<open>finally\<close>.\<close>

definition fetchAvailableTools_finish ::
  "js_error \<Rightarrow> json fetch_result \<Rightarrow> landing_state \<Rightarrow> landing_state" where
  "fetchAvailableTools_finish te res st =
     (case tools_try te res of
        Inr xs \<Rightarrow> st\<lparr>availableTools := xs, toolsLoading := False\<rparr>
      | Inl e \<Rightarrow>
          st\<lparr>toolsError := Some (err_message e), availableTools := fallback_tools,
             toolsLoading := False\<rparr>)"

definition fetchAvailableTools ::
  "jsstring \<Rightarrow> js_error \<Rightarrow> json fetch_result \<Rightarrow> landing_state \<Rightarrow> landing_state" where
  "fetchAvailableTools hostname te res st =
     fetchAvailableTools_finish te res (fst (fetchAvailableTools_start hostname st))"

section \<open>The chat session\<close>

text \<open>
  The body of a chat response, read through the contract of the endpoint: an optional
  textual reply and an optional list of tool-call records, each with a name. A field
  is absent, \<open>null\<close> or present.
\<close>

datatype 'a js_field = Absent | Null | Value 'a

record tool_call =
  tc_name :: jsstring

record chat_data =
  ai_message :: "jsstring js_field"
  tool_calls :: "tool_call list js_field"

record chat_request =
  req_url :: jsstring
  req_message :: jsstring
  req_history :: "(role \<times> jsstring) list"

text \<open>
  \<open>handleSubmit\<close> up to its \<open>await\<close>: the guard, the user message, the cleared input,
  the loading flag and the request that is sent (\<open>None\<close> when none is). The history
  is read from the log as it was when the handler was called.
\<close>

definition handleSubmit_start ::
  "jsstring \<Rightarrow> clock \<Rightarrow> landing_state \<Rightarrow> landing_state \<times> chat_request option" where
  "handleSubmit_start hostname clk st =
     (if trim (inputValue st) = [] \<or> isLoading st then (st, None)
      else
        let userMessage =
              \<lparr>msg_id = now clk, msg_type = User, content = inputValue st,
               timestamp = time_string clk, toolsUsed = None\<rparr>;
            historyToSend = map (\<lambda>msg. (msg_type msg, content msg)) (messages st)
        in (st\<lparr>messages := messages st @ [userMessage], inputValue := [], isLoading := True\<rparr>,
            Some \<lparr>req_url = getBackendURL hostname @ js ''/chat'',
                  req_message = content userMessage,
                  req_history = historyToSend\<rparr>))"

definition placeholder :: jsstring where
  "placeholder = js ''(No direct textual response)''"

text \<open>\<open>data.ai_message || "(No direct textual response)"\<close>\<close>

definition botMessageContent :: "chat_data \<Rightarrow> jsstring" where
  "botMessageContent data =
     (case ai_message data of
        Value s \<Rightarrow> if s = [] then placeholder else s
      | _ \<Rightarrow> placeholder)"

definition toolsUsedByBot :: "chat_data \<Rightarrow> jsstring list" where
  "toolsUsedByBot data =
     (case tool_calls data of
        Value tcs \<Rightarrow> if 0 < length tcs then map tc_name tcs else []
      | _ \<Rightarrow> [])"

text \<open>The \<open>try\<close> block after the request: the bot message, or the error thrown.\<close>

definition chat_try :: "clock \<Rightarrow> chat_data fetch_result \<Rightarrow> js_error + message" where
  "chat_try clk res =
     (case res of
        Rejected e \<Rightarrow> Inl e
      | Resolved r \<Rightarrow>
          if \<not> ok r then
            (if status r = 503 then
               Inl (new_Error (js ''Service is starting up. Please wait a moment and try again.''))
             else if 500 \<le> status r then
               Inl (new_Error (js ''Server error. Please try again later.''))
             else if status r = 404 then
               Inl (new_Error (js ''Service not found. Please check the backend URL.''))
             else Inl (new_Error (js ''HTTP error! status: '' @ decimal (status r))))
          else
            (case body_json r of
               Inl e \<Rightarrow> Inl e
             | Inr data \<Rightarrow>
                 Inr \<lparr>msg_id = now clk + 1, msg_type = Bot,
                      content = formatAIResponse (botMessageContent data),
                      timestamp = time_string clk,
                      toolsUsed = Some (toolsUsedByBot data)\<rparr>))"

text \<open>The texts of the \<open>catch\<close> block.\<close>

definition error_header :: jsstring where
  "error_header = [0xE2, 0x161, 0xA0, 0xEF, 0xB8] @ js '' **Connection Error**'' @ [0x0A, 0x0A]"

definition timeout_text :: jsstring where
  "timeout_text =
     js ''Request timed out. The server might be busy.'' @ [0x0A] @ bullet
     @ js '' Try a simpler question'' @ [0x0A] @ bullet
     @ js '' Wait a moment and try again'' @ [0x0A] @ bullet
     @ js '' Check your internet connection''"

definition starting_text :: jsstring where
  "starting_text =
     js ''The AI service is starting up.'' @ [0x0A] @ bullet
     @ js '' Please wait 30-60 seconds'' @ [0x0A] @ bullet
     @ js '' Try your request again'' @ [0x0A] @ bullet
     @ js '' The service should be ready shortly''"

definition network_text :: jsstring where
  "network_text =
     js ''Network connection issue.'' @ [0x0A] @ bullet
     @ js '' Check your internet connection'' @ [0x0A] @ bullet
     @ js '' The server might be temporarily unavailable'' @ [0x0A] @ bullet
     @ js '' Try again in a few moments''"

definition generic_text :: "jsstring \<Rightarrow> jsstring" where
  "generic_text msg =
     js ''Sorry, I couldn'' @ [0x27] @ js ''t process your request:'' @ [0x0A] @ bullet
     @ js '' '' @ msg @ [0x0A] @ bullet @ js '' Please try again in a moment''"

definition errorMessage :: "js_error \<Rightarrow> jsstring" where
  "errorMessage e =
     error_header @
     (if err_name e = js ''AbortError'' then timeout_text
      else if includes_js (err_message e) (js ''Service is starting up'') then starting_text
      else if includes_js (err_message e) (js ''Failed to fetch'')
              \<or> includes_js (err_message e) (js ''NetworkError'')
      then network_text
      else generic_text (err_message e))"

text \<open>
  The rest of \<open>handleSubmit\<close>: \<open>try\<close>, \<open>catch\<close> and \<open>finally\<close>. Both appends are
  functional updates of the log, so they act on the log as it is when they run.
\<close>

definition handleSubmit_finish ::
  "clock \<Rightarrow> chat_data fetch_result \<Rightarrow> landing_state \<Rightarrow> landing_state" where
  "handleSubmit_finish clk res st =
     (let botResponse =
            (case chat_try clk res of
               Inr m \<Rightarrow> m
             | Inl e \<Rightarrow>
                 \<lparr>msg_id = now clk + 1, msg_type = Bot, content = errorMessage e,
                  timestamp = time_string clk, toolsUsed = None\<rparr>)
      in st\<lparr>messages := messages st @ [botResponse], isLoading := False\<rparr>)"

text \<open>A whole send: the request is answered by \<open>res\<close> at the time \<open>clk2\<close>.\<close>

definition handleSubmit ::
  "jsstring \<Rightarrow> clock \<Rightarrow> clock \<Rightarrow> chat_data fetch_result \<Rightarrow> landing_state \<Rightarrow> landing_state" where
  "handleSubmit hostname clk1 clk2 res st =
     (case handleSubmit_start hostname clk1 st of
        (st1, None) \<Rightarrow> st1
      | (st1, Some req) \<Rightarrow> handleSubmit_finish clk2 res st1)"

text \<open>What the bot message appended by \<open>handleSubmit\<close> says.\<close>

definition bot_reply :: "clock \<Rightarrow> chat_data fetch_result \<Rightarrow> landing_state \<Rightarrow> jsstring" where
  "bot_reply clk res st = content (last (messages (handleSubmit_finish clk res st)))"

text \<open>The array held by the \<open>tools\<close> field of a parsed body, when there is one.\<close>

definition tools_array :: "json \<Rightarrow> json list option" where
  "tools_array data =
     (case data of
        JObject props \<Rightarrow>
          (case map_of props (js ''tools'') of Some (JArray xs) \<Rightarrow> Some xs | _ \<Rightarrow> None)
      | _ \<Rightarrow> None)"

section \<open>The bullet list, as built and as specified\<close>









text \<open>
  The first occurrence of a token when the case of the letters \<open>a\<close> to \<open>z\<close> is
  ignored, as the pattern of a site is matched.
\<close>

fun first_occurrence_ci :: "jsstring \<Rightarrow> jsstring \<Rightarrow> nat option" where
  "first_occurrence_ci [] p = (if p = [] then Some 0 else None)"
| "first_occurrence_ci (c # cs) p =
     (if starts_with_ci (c # cs) p then Some 0
      else map_option Suc (first_occurrence_ci cs p))"

section \<open>Notions used in the proofs\<close>

text \<open>The code units a match of the website pattern can consume.\<close>

definition is_tok :: "code_unit \<Rightarrow> bool" where
  "is_tok c = (is_word c \<or> c = 0x2E)"

text \<open>
  A matcher is local to a class of code units when it reads the input only up to
  the first code unit outside the class and never matches beyond it.
\<close>

definition local_on :: "(code_unit \<Rightarrow> bool) \<Rightarrow> matcher \<Rightarrow> bool" where
  "local_on P m \<longleftrightarrow>
     (\<forall>s. m s = m (takeWhile P s) \<and> (\<forall>n \<in> set (m s). n \<le> length (takeWhile P s)))"

text \<open>A word in which the website pattern cannot match anywhere.\<close>

definition is_calm :: "jsstring \<Rightarrow> bool" where
  "is_calm w \<longleftrightarrow>
     \<not> includes_js w (js ''.com'') \<and> \<not> includes_js w (js ''.org'')
     \<and> \<not> includes_js w (js ''.ai'') \<and> \<not> includes_js w (js ''Face'')
     \<and> \<not> includes_js w (js ''Net'') \<and> length (filter is_upper w) < 2"

text \<open>A code unit that starts none of the three markers of formatted text.\<close>

definition is_plain_text :: "code_unit \<Rightarrow> bool" where
  "is_plain_text c = (c \<noteq> 0xE2 \<and> c \<noteq> 0x2A \<and> c \<noteq> 0x0A)"

section \<open>Sample inputs\<close>

text \<open>
  A reply that names three platforms; two of them occur earlier in another letter
  case.
\<close>

definition platforms_reply_1 :: jsstring where
  "platforms_reply_1 =
     js ''Both huggingface and imagenet are mentioned a lot, next to github.com and others. ''"


















text \<open>
  A reply that holds bullets, the character U+2022, and none of the three markers
  that the formatter looks for.
\<close>

definition bulleted_reply_1 :: jsstring where
  "bulleted_reply_1 =
     js ''Here are the main points about Rust. ''"

definition bulleted_reply_2 :: jsstring where
  "bulleted_reply_2 =
     [0x2022] @ js '' It gives memory safety without a garbage collector. ''"

definition bulleted_reply_3 :: jsstring where
  "bulleted_reply_3 =
     [0x2022] @ js '' The compiler checks ownership and borrowing rules before the program runs. ''"

definition bulleted_reply_4 :: jsstring where
  "bulleted_reply_4 =
     [0x2022] @ js '' Many teams pick it for network services and command line tools. ''"

definition bulleted_reply_5 :: jsstring where
  "bulleted_reply_5 =
     [0x2022] @ js '' The learning curve can be steep at first, but the tooling is friendly. ''"

definition bulleted_reply_6 :: jsstring where
  "bulleted_reply_6 =
     [0x2022] @ js '' You can try it in the online playground today.''"

definition bulleted_reply :: jsstring where
  "bulleted_reply = bulleted_reply_1 @ bulleted_reply_2 @ bulleted_reply_3 @ bulleted_reply_4 @ bulleted_reply_5 @ bulleted_reply_6"

text \<open>A page state with a typed question, and responses of the chat endpoint.\<close>

definition sample_clock :: clock where
  "sample_clock = \<lparr>now = 1000, time_string = js ''10:00:00''\<rparr>"

definition sample_state :: landing_state where
  "sample_state = (initial_state sample_clock)\<lparr>inputValue := js ''Hello AI!''\<rparr>"

definition sample_reply :: chat_data where
  "sample_reply =
     \<lparr>ai_message = Value (js ''This is a test AI response.''),
      tool_calls = Value [\<lparr>tc_name = js ''firecrawl_search''\<rparr>, \<lparr>tc_name = js ''firecrawl_scrape''\<rparr>,
                          \<lparr>tc_name = js ''firecrawl_search''\<rparr>]\<rparr>"

definition empty_reply :: chat_data where
  "empty_reply = \<lparr>ai_message = Absent, tool_calls = Absent\<rparr>"

definition response_with :: "nat \<Rightarrow> chat_data \<Rightarrow> chat_data response" where
  "response_with code data = \<lparr>ok = (200 \<le> code \<and> code < 300), status = code, body_json = Inr data\<rparr>"

definition abort_error :: js_error where
  "abort_error = \<lparr>err_name = js ''AbortError'', err_message = js ''The user aborted a request.''\<rparr>"

definition network_error :: js_error where
  "network_error = \<lparr>err_name = js ''TypeError'', err_message = js ''Failed to fetch''\<rparr>"


definition null_read_error :: js_error where
  "null_read_error =
     \<lparr>err_name = js ''TypeError'', err_message = js ''Cannot read properties of null''\<rparr>"


definition tools_response :: "nat \<Rightarrow> json \<Rightarrow> json response" where
  "tools_response code data = \<lparr>ok = (200 \<le> code \<and> code < 300), status = code, body_json = Inr data\<rparr>"

definition three_tools :: "json list" where
  "three_tools =
     [JString (js ''firecrawl_scrape''), JString (js ''firecrawl_search''),
      JString (js ''firecrawl_extract'')]"

section \<open>Lemmas\<close>

lemma local_onD1: "local_on P m \<Longrightarrow> m s = m (takeWhile P s)"
  by (simp add: local_on_def)

lemma local_onD2: "local_on P m \<Longrightarrow> n \<in> set (m s) \<Longrightarrow> n \<le> length (takeWhile P s)"
  by (simp add: local_on_def)

lemma local_class: "(\<And>c. Q c \<Longrightarrow> P c) \<Longrightarrow> local_on P (re_class Q)"
  by (auto simp: local_on_def re_class_def split: list.splits)

lemma re_star_takeWhile:
  assumes "\<And>c. Q c \<Longrightarrow> P c"
  shows "re_star Q s = re_star Q (takeWhile P s) \<and> (\<forall>n \<in> set (re_star Q s). n \<le> length (takeWhile P s))"
  using assms by (induction s) auto

lemma local_star: "(\<And>c. Q c \<Longrightarrow> P c) \<Longrightarrow> local_on P (re_star Q)"
  unfolding local_on_def using re_star_takeWhile by blast

lemma starts_with_takeWhile:
  "list_all P w \<Longrightarrow> starts_with s w = starts_with (takeWhile P s) w"
  by (induction s w rule: starts_with.induct) auto

lemma starts_with_length: "starts_with s w \<Longrightarrow> length w \<le> length s"
  by (induction s w rule: starts_with.induct) auto

lemma local_lit:
  assumes "list_all P w"
  shows "local_on P (re_lit w)"
proof -
  have "re_lit w s = re_lit w (takeWhile P s)" for s
    using starts_with_takeWhile [OF assms, of s] by (simp add: re_lit_def)
  moreover have "n \<le> length (takeWhile P s)" if "n \<in> set (re_lit w s)" for n s
  proof -
    from that have "starts_with s w" and n: "n = length w"
      by (auto simp: re_lit_def split: if_splits)
    then have "starts_with (takeWhile P s) w"
      using starts_with_takeWhile [OF assms, of s] by simp
    with n show ?thesis using starts_with_length by blast
  qed
  ultimately show ?thesis unfolding local_on_def by blast
qed

lemma drop_takeWhile_le:
  "n \<le> length (takeWhile P s) \<Longrightarrow> takeWhile P (drop n s) = drop n (takeWhile P s)"
proof (induction s arbitrary: n)
  case Nil
  then show ?case by simp
next
  case (Cons c cs)
  then show ?case by (cases n) (auto split: if_splits)
qed

lemma local_seq:
  assumes "local_on P m1" and "local_on P m2"
  shows "local_on P (re_seq m1 m2)"
proof -
  have eq: "re_seq m1 m2 s = re_seq m1 m2 (takeWhile P s)" for s
  proof -
    have "map (\<lambda>n. map ((+) n) (m2 (drop n s))) (m1 s)
        = map (\<lambda>n. map ((+) n) (m2 (drop n (takeWhile P s)))) (m1 s)"
    proof (rule map_cong [OF refl])
      fix n assume "n \<in> set (m1 s)"
      then have "n \<le> length (takeWhile P s)" using assms(1) local_onD2 by blast
      then have "takeWhile P (drop n s) = drop n (takeWhile P s)" by (rule drop_takeWhile_le)
      moreover have "m2 (drop n s) = m2 (takeWhile P (drop n s))"
        using assms(2) local_onD1 by blast
      moreover have "m2 (drop n (takeWhile P s)) = m2 (takeWhile P (drop n (takeWhile P s)))"
        using assms(2) local_onD1 by blast
      ultimately show "map ((+) n) (m2 (drop n s)) = map ((+) n) (m2 (drop n (takeWhile P s)))"
        by (simp add: takeWhile_idem)
    qed
    then have "re_seq m1 m2 s
        = concat (map (\<lambda>n. map ((+) n) (m2 (drop n (takeWhile P s)))) (m1 s))"
      by (simp only: re_seq_def)
    also have "m1 s = m1 (takeWhile P s)" using assms(1) by (rule local_onD1)
    finally show ?thesis by (simp only: re_seq_def)
  qed
  have bound: "n \<le> length (takeWhile P s)" if "n \<in> set (re_seq m1 m2 s)" for n s
  proof -
    from that obtain a b where ab: "a \<in> set (m1 s)" "b \<in> set (m2 (drop a s))" "n = a + b"
      by (auto simp: re_seq_def)
    from ab(1) have a: "a \<le> length (takeWhile P s)" using assms(1) local_onD2 by blast
    from ab(2) have "b \<le> length (takeWhile P (drop a s))" using assms(2) local_onD2 by blast
    with a have "b \<le> length (takeWhile P s) - a" by (simp add: drop_takeWhile_le)
    with a ab(3) show ?thesis by simp
  qed
  show ?thesis unfolding local_on_def using eq bound by blast
qed

lemma local_alt:
  assumes "local_on P m1" and "local_on P m2"
  shows "local_on P (re_alt m1 m2)"
proof -
  have "re_alt m1 m2 s = re_alt m1 m2 (takeWhile P s)" for s
    using local_onD1 [OF assms(1), of s] local_onD1 [OF assms(2), of s]
    by (simp only: re_alt_def)
  moreover have "n \<le> length (takeWhile P s)" if "n \<in> set (re_alt m1 m2 s)" for n s
    using that local_onD2 [OF assms(1), of n s] local_onD2 [OF assms(2), of n s]
    by (auto simp: re_alt_def)
  ultimately show ?thesis unfolding local_on_def by blast
qed

lemma local_plus: "(\<And>c. Q c \<Longrightarrow> P c) \<Longrightarrow> local_on P (re_plus Q)"
  unfolding re_plus_def by (intro local_seq local_class local_star)

lemma website_re_local: "local_on is_tok website_re"
  unfolding website_re_def
  by (intro local_alt local_seq local_plus local_class local_lit)
     (simp_all add: is_tok_def is_word_def is_upper_def is_lower_def is_digit_def js_def)

lemma website_re_takeWhile: "website_re s = website_re (takeWhile is_tok s)"
  using website_re_local local_onD1 by blast

lemma search_bounds:
  "search m s = Some (i, n) \<Longrightarrow> i \<le> length s \<and> m (drop i s) \<noteq> [] \<and> n = hd (m (drop i s))"
proof (induction s arbitrary: i)
  case Nil
  then show ?case by (auto split: list.splits)
next
  case (Cons c cs)
  show ?case
  proof (cases "m (c # cs)")
    case Nil
    with Cons.prems obtain j where j: "search m cs = Some (j, n)" "i = Suc j"
      by auto
    with Cons.IH [of j] show ?thesis by simp
  next
    case (Cons a list)
    with Cons.prems show ?thesis by simp
  qed
qed











lemma match_all_Nil: "m [] = [] \<Longrightarrow> match_all m [] = []"
  by (simp add: match_all.simps [of m "[]"])

lemma match_all_Cons:
  "match_all m (c # cs) =
     (case m (c # cs) of
        [] \<Rightarrow> match_all m cs
      | n # _ \<Rightarrow>
          take n (c # cs) #
            (if n = 0 then match_all m cs
             else if length (c # cs) < n then []
             else match_all m (drop n (c # cs))))"
proof (cases "m (c # cs)")
  case Nil
  have "match_all m (c # cs) = match_all m cs"
    by (subst match_all.simps, subst (2) match_all.simps)
       (auto simp: Nil Let_def split: option.splits)
  with Nil show ?thesis by simp
next
  case (Cons n ns)
  then show ?thesis
    by (subst match_all.simps) (auto simp: Let_def)
qed




lemma starts_with_hd: "starts_with s p \<Longrightarrow> p \<noteq> [] \<Longrightarrow> hd p \<in> set s"
  by (induction s p rule: starts_with.induct) auto

lemma includes_js_hd: "includes_js s p \<Longrightarrow> p \<noteq> [] \<Longrightarrow> hd p \<in> set s"
  by (induction s) (auto dest: starts_with_hd)

lemma re_plus_Cons:
  "re_plus P (c # cs) = (if P c then map Suc (re_star P cs) else [])"
  by (simp add: re_plus_def re_seq_def re_class_def)

lemma re_plus_Nil: "re_plus P [] = []"
  by (simp add: re_plus_def re_seq_def re_class_def)

lemma split_loop_plain:
  "list_all (\<lambda>c. \<not> is_punct c) w \<Longrightarrow>
   split_loop (re_plus is_punct) acc (w @ r) = split_loop (re_plus is_punct) (acc @ w) r"
  by (induction w arbitrary: acc) (auto simp: re_plus_Cons)

lemma split_loop_punct:
  assumes "is_punct p" and "r = [] \<or> \<not> is_punct (hd r)"
  shows "split_loop (re_plus is_punct) acc (p # r) = acc # split_loop (re_plus is_punct) [] r"
proof -
  have "re_star is_punct r = [0]" using assms(2) by (cases r) auto
  then have "re_plus is_punct (p # r) = [1]" using assms(1) by (simp add: re_plus_Cons)
  then show ?thesis by simp
qed

lemma join_Cons: "join sep (b # bs) = (if bs = [] then b else b @ sep @ join sep bs)"
  by (cases bs) auto

lemma split_loop_join:
  "list_all (list_all (\<lambda>c. \<not> is_punct c)) (b # bs) \<Longrightarrow> list_all (\<lambda>x. x \<noteq> []) (butlast bs) \<Longrightarrow>
   split_loop (re_plus is_punct) acc (join [0x2E] (b # bs)) = (acc @ b) # bs"
proof (induction bs arbitrary: b acc)
  case Nil
  then show ?case using split_loop_plain [of b acc "[]"] by simp
next
  case (Cons b' bs')
  have rest: "join [0x2E] (b' # bs') = [] \<or> \<not> is_punct (hd (join [0x2E] (b' # bs')))"
  proof (cases "b' = []")
    case True
    with Cons.prems(2) have "bs' = []" by (cases bs') auto
    with True show ?thesis by simp
  next
    case False
    with Cons.prems(1) have "\<not> is_punct (hd b')" by (cases b') auto
    with False show ?thesis by (simp add: join_Cons)
  qed
  have mid: "list_all (\<lambda>x. x \<noteq> []) (butlast bs')"
    using Cons.prems(2) by (cases bs') auto
  have "split_loop (re_plus is_punct) acc (join [0x2E] (b # b' # bs'))
      = split_loop (re_plus is_punct) (acc @ b) (0x2E # join [0x2E] (b' # bs'))"
    using Cons.prems(1) split_loop_plain [of b acc "0x2E # join [0x2E] (b' # bs')"] by simp
  also have "\<dots> = (acc @ b) # split_loop (re_plus is_punct) [] (join [0x2E] (b' # bs'))"
    by (rule split_loop_punct [OF _ rest]) (simp add: is_punct_def)
  also have "split_loop (re_plus is_punct) [] (join [0x2E] (b' # bs')) = ([] @ b') # bs'"
    using Cons.prems(1) mid by (intro Cons.IH) simp_all
  finally show ?case by simp
qed

lemma split_join:
  assumes "list_all (list_all (\<lambda>c. \<not> is_punct c)) (b # bs)"
      and "list_all (\<lambda>x. x \<noteq> []) (butlast bs)"
  shows "split (re_plus is_punct) (join [0x2E] (b # bs)) = b # bs"
proof (cases "join [0x2E] (b # bs) = []")
  case True
  then have "b = [] \<and> bs = []" by (simp add: join_Cons split: if_splits)
  then show ?thesis by (simp add: split_def re_plus_Nil)
next
  case False
  then show ?thesis using split_loop_join [OF assms, of "[]"] by (simp add: split_def)
qed

lemma takeWhile_append_stop: "\<not> P x \<Longrightarrow> takeWhile P (w @ x # r) = takeWhile P w"
  by (induction w) auto

lemma website_re_cut: "\<not> is_tok sep \<Longrightarrow> website_re (w @ sep # r) = website_re w"
  using website_re_takeWhile [of "w @ sep # r"] website_re_takeWhile [of w]
  by (simp add: takeWhile_append_stop)

lemma website_re_bound: "n \<in> set (website_re w) \<Longrightarrow> n \<le> length w"
  using local_onD2 [OF website_re_local, of n w] length_takeWhile_le [of is_tok w] by simp

lemma re_seq_pos: "(\<And>a. a \<in> set (m1 s) \<Longrightarrow> 0 < a) \<Longrightarrow> n \<in> set (re_seq m1 m2 s) \<Longrightarrow> 0 < n"
  by (auto simp: re_seq_def)

lemma re_class_pos: "a \<in> set (re_class P s) \<Longrightarrow> 0 < a"
  by (auto simp: re_class_def split: list.splits if_splits)

lemma re_plus_pos: "a \<in> set (re_plus P s) \<Longrightarrow> 0 < a"
  unfolding re_plus_def by (erule re_seq_pos [rotated]) (rule re_class_pos)

lemma website_re_pos: "n \<in> set (website_re w) \<Longrightarrow> 0 < n"
proof -
  have A: "0 < k" if "k \<in> set (re_seq (re_plus P) m2 s)" for k P m2 s
    using that by (rule re_seq_pos [rotated]) (rule re_plus_pos)
  have B: "0 < k" if "k \<in> set (re_seq (re_class P) m2 s)" for k P m2 s
    using that by (rule re_seq_pos [rotated]) (rule re_class_pos)
  assume "n \<in> set (website_re w)"
  then show ?thesis
    unfolding website_re_def re_alt_def by (auto dest: A B)
qed

lemma website_re_Nil: "website_re [] = []"
  by (simp add: website_re_def re_alt_def re_seq_def re_plus_def re_class_def)

lemma scan_sep:
  "\<not> is_tok sep \<Longrightarrow>
   match_all website_re (w @ sep # r) = match_all website_re w @ match_all website_re r"
proof (induction w rule: length_induct)
  case (1 w)
  show ?case
  proof (cases w)
    case Nil
    have "website_re (sep # r) = []"
      using website_re_cut [OF "1.prems", of "[]" r] by (simp add: website_re_Nil)
    then show ?thesis
      using Nil by (simp add: match_all_Cons match_all_Nil website_re_Nil)
  next
    case (Cons c cs)
    have cut: "website_re (c # cs @ sep # r) = website_re (c # cs)"
      using website_re_cut [OF "1.prems", of "c # cs" r] by simp
    show ?thesis
    proof (cases "website_re (c # cs)")
      case Nil
      have "match_all website_re (cs @ sep # r) = match_all website_re cs @ match_all website_re r"
        using "1.IH" "1.prems" Cons by simp
      then show ?thesis
        using Nil cut Cons by (simp add: match_all_Cons)
    next
      case (Cons n ns)
      then have n: "0 < n" "n \<le> length (c # cs)"
        using website_re_pos [of n "c # cs"] website_re_bound [of n "c # cs"] by simp_all
      have "length (drop n (c # cs)) < length w"
        using n \<open>w = c # cs\<close> by simp
      then have ih: "match_all website_re (drop n (c # cs) @ sep # r)
          = match_all website_re (drop n (c # cs)) @ match_all website_re r"
        using "1.IH" "1.prems" by blast
      have t: "take n (c # cs @ sep # r) = take n (c # cs)"
        using n by (cases n) auto
      have d: "drop n (c # cs @ sep # r) = drop n (c # cs) @ sep # r"
        using n by (cases n) auto
      have "match_all website_re (c # cs @ sep # r)
          = take n (c # cs) # match_all website_re (drop n (c # cs) @ sep # r)"
        using n Cons cut by (subst match_all_Cons) (simp only: list.case t d, simp)
      moreover have "match_all website_re (c # cs)
          = take n (c # cs) # match_all website_re (drop n (c # cs))"
        using n Cons by (subst match_all_Cons) (simp only: list.case, simp)
      ultimately show ?thesis using ih \<open>w = c # cs\<close> by simp
    qed
  qed
qed

lemma scan_join:
  "match_all website_re (join [0x20] ws) = concat (map (match_all website_re) ws)"
proof (induction "[0x20 :: code_unit]" ws rule: join.induct)
  case 1
  then show ?case by (simp add: match_all_Nil website_re_Nil)
next
  case (2 x)
  then show ?case by simp
next
  case (3 x y ys)
  have "\<not> is_tok 0x20"
    by (simp add: is_tok_def is_word_def is_upper_def is_lower_def is_digit_def)
  then show ?case using 3 scan_sep [of "0x20" x "join [0x20] (y # ys)"] by simp
qed







lemma includes_js_drop: "starts_with (drop n s) p \<Longrightarrow> includes_js s p"
proof (induction s arbitrary: n)
  case Nil
  then show ?case by (cases p) auto
next
  case (Cons c cs)
  then show ?case by (cases n) auto
qed

lemma re_seq_lit_includes: "re_seq m1 (re_lit p) s \<noteq> [] \<Longrightarrow> includes_js s p"
  by (auto simp: re_seq_def re_lit_def split: if_splits dest: includes_js_drop)

lemma re_seq_elem:
  "n \<in> set (re_seq m1 m2 s) \<Longrightarrow> \<exists>a b. a \<in> set (m1 s) \<and> b \<in> set (m2 (drop a s)) \<and> n = a + b"
  by (auto simp: re_seq_def)

lemma camel_two_upper:
  assumes "re_seq (re_class is_upper) (re_seq (re_plus is_lower) (re_seq (re_class is_upper) m)) s \<noteq> []"
  shows "2 \<le> length (filter is_upper s)"
proof -
  from assms obtain n where "n \<in> set (re_seq (re_class is_upper)
      (re_seq (re_plus is_lower) (re_seq (re_class is_upper) m)) s)"
    by (meson last_in_set)
  then obtain a b where a: "a \<in> set (re_class is_upper s)"
    and b: "b \<in> set (re_seq (re_plus is_lower) (re_seq (re_class is_upper) m) (drop a s))"
    using re_seq_elem by blast
  from a obtain c cs where s: "s = c # cs" "is_upper c" "a = 1"
    by (auto simp: re_class_def split: list.splits if_splits)
  from b s obtain k j where "j \<in> set (re_seq (re_class is_upper) m (drop k cs))"
    using re_seq_elem by fastforce
  then obtain i where "i \<in> set (re_class is_upper (drop k cs))"
    using re_seq_elem by blast
  then obtain d ds where d: "drop k cs = d # ds" "is_upper d"
    by (cases "drop k cs") (auto simp: re_class_def split: if_splits)
  then have "d \<in> set cs" by (metis in_set_dropD list.set_intros(1))
  with d(2) have "filter is_upper cs \<noteq> []" by (auto simp: filter_empty_conv)
  then have "1 \<le> length (filter is_upper cs)" by (cases "filter is_upper cs") auto
  with s show ?thesis by simp
qed

lemma website_re_calm:
  assumes "is_calm w"
  shows "website_re w = []"
proof (rule ccontr)
  assume "website_re w \<noteq> []"
  then consider
      "re_seq (re_plus is_word) (re_lit (js ''.com'')) w \<noteq> []"
    | "re_seq (re_plus is_word) (re_lit (js ''.org'')) w \<noteq> []"
    | "re_seq (re_plus is_word) (re_lit (js ''.ai'')) w \<noteq> []"
    | "re_seq (re_plus is_word) (re_lit (js ''Face'')) w \<noteq> []"
    | "re_seq (re_plus is_word) (re_lit (js ''Net'')) w \<noteq> []"
    | "re_seq (re_class is_upper) (re_seq (re_plus is_lower)
        (re_seq (re_class is_upper) (re_plus is_lower))) w \<noteq> []"
    unfolding website_re_def re_alt_def by auto
  then show False
    using assms re_seq_lit_includes camel_two_upper
    by cases (fastforce simp: is_calm_def)+
qed

lemma includes_js_Cons: "includes_js cs p \<Longrightarrow> includes_js (c # cs) p"
  by simp

lemma is_calm_tail: "is_calm (c # cs) \<Longrightarrow> is_calm cs"
  unfolding is_calm_def
  by (auto dest: includes_js_Cons split: if_splits)

lemma match_all_calm: "is_calm w \<Longrightarrow> match_all website_re w = []"
proof (induction w)
  case Nil
  then show ?case by (simp add: match_all_Nil website_re_Nil)
next
  case (Cons c cs)
  then show ?case
    using website_re_calm [of "c # cs"] is_calm_tail [of c cs] by (simp add: match_all_Cons)
qed

lemma starts_with_Cons_if:
  "starts_with (c # cs) (p # ps) = (if c = p then starts_with cs ps else False)"
  by simp

lemma starts_with_ci_Cons_if:
  "starts_with_ci (c # cs) (p # ps) =
     (if canonicalize c = canonicalize p then starts_with_ci cs ps else False)"
  by simp

lemma includes_js_Cons_if:
  "includes_js (c # cs) p = (if starts_with (c # cs) p then True else includes_js cs p)"
  by simp

lemma list_all_Cons_if: "list_all P (x # xs) = (if P x then list_all P xs else False)"
  by simp





lemma website_match_tokens:
  "x \<in> set (match_all website_re c) \<Longrightarrow> list_all is_tok x"
proof (induction website_re c rule: match_all.induct)
  case (1 s)
  show ?case
  proof (cases "search website_re s")
    case None
    with "1.prems" show ?thesis by (simp add: match_all.simps [of website_re s])
  next
    case (Some p)
    obtain i n where p: "p = (i, n)" by (cases p)
    define nxt where "nxt = (if n = 0 then i + 1 else i + n)"
    from Some p have b: "website_re (drop i s) \<noteq> []" "n = hd (website_re (drop i s))"
      using search_bounds by blast+
    then have "n \<le> length (takeWhile is_tok (drop i s))"
      using local_onD2 [OF website_re_local, of n "drop i s"] by simp
    then have "take n (drop i s) = take n (takeWhile is_tok (drop i s))"
      by (metis append_eq_conv_conj takeWhile_dropWhile_id take_append take_all_iff
          diff_is_0_eq' take_0 append_Nil2)
    moreover have "list_all is_tok (take n (takeWhile is_tok (drop i s)))"
      by (auto simp: list_all_iff dest!: in_set_takeD set_takeWhileD)
    ultimately have hit: "list_all is_tok (take n (drop i s))" by simp
    from "1.prems" Some p have
      "x = take n (drop i s) \<or> (\<not> length s < nxt \<and> x \<in> set (match_all website_re (drop nxt s)))"
      by (subst (asm) match_all.simps) (auto simp: nxt_def Let_def split: if_splits)
    then show ?thesis
      using hit "1.hyps" [OF Some p [symmetric] nxt_def] by auto
  qed
qed

lemma website_match_ascii:
  "x \<in> set (match_all website_re c) \<Longrightarrow> list_all (\<lambda>u. u < 0x80) x"
proof -
  have "u < 0x80" if "is_tok u" for u :: code_unit
    using that
    by (auto simp: is_tok_def is_word_def is_upper_def is_lower_def is_digit_def
        word_le_nat_alt word_less_nat_alt)
  moreover assume "x \<in> set (match_all website_re c)"
  ultimately show ?thesis
    using website_match_tokens [of x c] by (auto simp: list_all_iff)
qed








lemma tools_try_array:
  "ok r \<Longrightarrow> body_json r = Inr data \<Longrightarrow> tools_array data = Some xs \<Longrightarrow>
   tools_try te (Resolved r) = Inr xs"
  by (auto simp: tools_try_def tools_array_def get_tools_def split: json.splits option.splits)

lemma tools_try_no_array:
  "body_json r = Inr data \<Longrightarrow> tools_array data = None \<Longrightarrow> \<exists>e. tools_try te (Resolved r) = Inl e"
  by (cases data)
     (auto simp: tools_try_def tools_array_def get_tools_def split: json.splits option.splits
       elim: isArray.elims)



lemma plain_text_no_markers:
  assumes "list_all is_plain_text s"
  shows "\<not> includes_js s bullet \<and> \<not> includes_js s bold_marker \<and> \<not> includes_js s paragraph_break"
proof -
  have "0xE2 \<notin> set s" "0x2A \<notin> set s" "0x0A \<notin> set s"
    using assms by (auto simp: list_all_iff is_plain_text_def)
  then show ?thesis
    using includes_js_hd [of s bullet] includes_js_hd [of s bold_marker]
      includes_js_hd [of s paragraph_break]
    by (auto simp: bullet_def bold_marker_def paragraph_break_def js_def)
qed

lemma trim_empty: "trim s = [] \<longleftrightarrow> list_all is_space s"
proof -
  have "trim s = [] \<longleftrightarrow> dropWhile is_space s = []"
    by (auto simp: trim_def dropWhile_eq_Nil_conv dest: set_dropWhileD)
       (metis dropWhile_eq_Nil_conv hd_dropWhile hd_in_set)
  then show ?thesis by (auto simp: dropWhile_eq_Nil_conv list_all_iff)
qed
























text \<open>
  The formatter returns a text unchanged when it holds one of the three markers the
  source looks for, when it is at most 300 code units long and when it has at most
  three sentence-like segments.
\<close>

lemma formatter_identity:
  "includes_js c bullet \<or> includes_js c bold_marker \<or> includes_js c paragraph_break
    \<or> length c \<le> 300 \<or> length (sentences c) \<le> 3 \<Longrightarrow> formatAIResponse c = c"
  by (auto simp: formatAIResponse_def Let_def)























































lemma platforms_first_ci_github_com:
  "first_occurrence_ci (platforms_reply_1 @ r) (js ''github.com'') = Some 59"
  by (simp add: platforms_reply_1_def js_def starts_with_ci_Cons_if canonicalize_def
      del: starts_with_ci.simps(3))






lemma platforms_first_ci_ImageNet:
  "first_occurrence_ci (platforms_reply_1 @ r) (js ''ImageNet'') = Some 21"
  by (simp add: platforms_reply_1_def js_def starts_with_ci_Cons_if canonicalize_def
      del: starts_with_ci.simps(3))






lemmas bulleted_defs = bulleted_reply_1_def bulleted_reply_2_def bulleted_reply_3_def bulleted_reply_4_def bulleted_reply_5_def bulleted_reply_6_def

lemma bulleted_words:
  "bulleted_reply = join [0x20]
     [js ''Here'', js ''are'', js ''the'', js ''main'', js ''points'', js ''about'',
      js ''Rust.'', [0x2022], js ''It'', js ''gives'', js ''memory'', js ''safety'',
      js ''without'', js ''a'', js ''garbage'', js ''collector.'', [0x2022], js ''The'',
      js ''compiler'', js ''checks'', js ''ownership'', js ''and'', js ''borrowing'',
      js ''rules'', js ''before'', js ''the'', js ''program'', js ''runs.'', [0x2022],
      js ''Many'', js ''teams'', js ''pick'', js ''it'', js ''for'', js ''network'',
      js ''services'', js ''and'', js ''command'', js ''line'', js ''tools.'', [0x2022],
      js ''The'', js ''learning'', js ''curve'', js ''can'', js ''be'', js ''steep'',
      js ''at'', js ''first,'', js ''but'', js ''the'', js ''tooling'', js ''is'',
      js ''friendly.'', [0x2022], js ''You'', js ''can'', js ''try'', js ''it'', js ''in'',
      js ''the'', js ''online'', js ''playground'', js ''today.'']"
  by (simp add: bulleted_reply_def bulleted_defs js_def)

lemma bulleted_bodies:
  "bulleted_reply = join [0x2E]
     [js ''Here are the main points about Rust'',
      js '' '' @ [0x2022] @ js '' It gives memory safety without a garbage collector'',
      js '' '' @ [0x2022] @ js '' The compiler checks ownership and borrowing rules before the program runs'',
      js '' '' @ [0x2022] @ js '' Many teams pick it for network services and command line tools'',
      js '' '' @ [0x2022] @ js '' The learning curve can be steep at first, but the tooling is friendly'',
      js '' '' @ [0x2022] @ js '' You can try it in the online playground today'',
      js '''']"
  by (simp add: bulleted_reply_def bulleted_defs js_def)

lemma bulleted_plain: "list_all is_plain_text bulleted_reply"
  by (simp add: bulleted_reply_def bulleted_defs js_def is_plain_text_def)

lemma bulleted_length: "length bulleted_reply = 355"
  by (simp add: bulleted_reply_def bulleted_defs js_def)

lemma bulleted_bodies_ok:
  "list_all (list_all (\<lambda>c. \<not> is_punct c))
     [js ''Here are the main points about Rust'',
      js '' '' @ [0x2022] @ js '' It gives memory safety without a garbage collector'',
      js '' '' @ [0x2022] @ js '' The compiler checks ownership and borrowing rules before the program runs'',
      js '' '' @ [0x2022] @ js '' Many teams pick it for network services and command line tools'',
      js '' '' @ [0x2022] @ js '' The learning curve can be steep at first, but the tooling is friendly'',
      js '' '' @ [0x2022] @ js '' You can try it in the online playground today'',
      js '''']"
  by (simp add: js_def is_punct_def)

lemma bulleted_sentences:
  "sentences bulleted_reply =
     [js ''Here are the main points about Rust'',
      js '' '' @ [0x2022] @ js '' It gives memory safety without a garbage collector'',
      js '' '' @ [0x2022] @ js '' The compiler checks ownership and borrowing rules before the program runs'',
      js '' '' @ [0x2022] @ js '' Many teams pick it for network services and command line tools'',
      js '' '' @ [0x2022] @ js '' The learning curve can be steep at first, but the tooling is friendly'',
      js '' '' @ [0x2022] @ js '' You can try it in the online playground today'']"
  unfolding sentences_def bulleted_bodies
  by (subst split_join [OF bulleted_bodies_ok])
     (simp_all add: trim_empty js_def is_space_def list_all_Cons_if del: list.pred_inject(2))

lemma bulleted_matches: "match_all website_re bulleted_reply = []"
  unfolding bulleted_words scan_join
  by (simp add: match_all_calm is_calm_def is_upper_def js_def includes_js_Cons_if
      starts_with_Cons_if del: includes_js.simps(2) starts_with.simps(3))

lemma bulleted_formatted:
  "formatAIResponse bulleted_reply
     = js ''Here are the main points about Rust.  '' @ [0x2022] @ js '' It gives memory safety without a garbage collector.  '' @ [0x2022] @ js '' The compiler checks ownership and borrowing rules before the program runs.''
        @ [0x0A, 0x0A]
        @ js '' '' @ [0x2022] @ js '' Many teams pick it for network services and command line tools.  '' @ [0x2022] @ js '' The learning curve can be steep at first, but the tooling is friendly.  '' @ [0x2022] @ js '' You can try it in the online playground today.''"
  using plain_text_no_markers [OF bulleted_plain]
  by (simp add: formatAIResponse_def bulleted_sentences bulleted_length match_global_def
      bulleted_matches js_def)

section \<open>The claims\<close>

subsection \<open>C1: one send appends one user message and one bot message\<close>

text \<open>
  C1. For every input that is non-empty after trimming, when no send is in flight,
  \<open>handleSubmit\<close> appends exactly one user message to the log at once, sets the
  loading flag and issues the request; whatever the outcome of the request (a
  reply, a failure, a timeout), it then appends exactly one bot message and clears
  the loading flag, so the log grows by exactly 2. The bot message is appended to
  the log as it is when the request is answered, whatever that log is.
\<close>

theorem C1_send_appends_two:
  assumes "trim (inputValue st) \<noteq> []" and "\<not> isLoading st"
  shows "\<exists>st1 req userMessage botResponse.
           handleSubmit_start hostname clk1 st = (st1, Some req)
         \<and> messages st1 = messages st @ [userMessage]
         \<and> msg_type userMessage = User \<and> content userMessage = inputValue st
         \<and> isLoading st1
         \<and> handleSubmit hostname clk1 clk2 res st = handleSubmit_finish clk2 res st1
         \<and> messages (handleSubmit hostname clk1 clk2 res st)
               = messages st @ [userMessage, botResponse]
         \<and> msg_type botResponse = Bot
         \<and> length (messages (handleSubmit hostname clk1 clk2 res st)) = length (messages st) + 2
         \<and> \<not> isLoading (handleSubmit hostname clk1 clk2 res st)
         \<and> (\<forall>st2. \<exists>b. messages (handleSubmit_finish clk2 res st2) = messages st2 @ [b]
                \<and> msg_type b = Bot \<and> \<not> isLoading (handleSubmit_finish clk2 res st2))"
  using assms
  by (auto simp: handleSubmit_start_def handleSubmit_def handleSubmit_finish_def Let_def
      chat_try_def split: sum.splits fetch_result.splits)

theorem C1_witness:
  "trim (inputValue sample_state) \<noteq> [] \<and> \<not> isLoading sample_state
   \<and> length (messages (handleSubmit (js ''localhost'') sample_clock sample_clock
         (Resolved (response_with 200 sample_reply)) sample_state)) = 3
   \<and> length (messages (handleSubmit (js ''localhost'') sample_clock sample_clock
         (Resolved (response_with 500 empty_reply)) sample_state)) = 3
   \<and> length (messages (handleSubmit (js ''localhost'') sample_clock sample_clock
         (Rejected abort_error) sample_state)) = 3
   \<and> \<not> isLoading (handleSubmit (js ''localhost'') sample_clock sample_clock
         (Rejected abort_error) sample_state)"
proof -
  have h1: "trim (inputValue sample_state) \<noteq> []"
    by (simp add: sample_state_def trim_empty js_def is_space_def)
  have h2: "\<not> isLoading sample_state"
    by (simp add: sample_state_def initial_state_def)
  have len: "length (messages sample_state) = 1"
    by (simp add: sample_state_def initial_state_def)
  show ?thesis
    using h1 h2 len
      C1_send_appends_two [OF h1 h2, of "js ''localhost''" sample_clock sample_clock
        "Resolved (response_with 200 sample_reply)"]
      C1_send_appends_two [OF h1 h2, of "js ''localhost''" sample_clock sample_clock
        "Resolved (response_with 500 empty_reply)"]
      C1_send_appends_two [OF h1 h2, of "js ''localhost''" sample_clock sample_clock
        "Rejected abort_error"]
    by auto
qed

subsection \<open>C2: failures are classified and answered by category\<close>




subsection \<open>C3: a guarded send does nothing\<close>

text \<open>
  C3. For every input that is empty or only white space after trimming, and for every
  input submitted while the loading flag is set, \<open>handleSubmit\<close> is a no-op: the
  state (the message log and the input value with it) is unchanged and no request
  is issued.
\<close>

theorem C3_guarded_send_is_noop:
  "trim (inputValue st) = [] \<or> isLoading st \<Longrightarrow>
   handleSubmit_start hostname clk st = (st, None)
   \<and> handleSubmit hostname clk clk2 res st = st
   \<and> messages (handleSubmit hostname clk clk2 res st) = messages st
   \<and> inputValue (handleSubmit hostname clk clk2 res st) = inputValue st"
  by (auto simp: handleSubmit_start_def handleSubmit_def)

theorem C3_witness:
  "trim (inputValue (sample_state\<lparr>inputValue := js ''   ''\<rparr>)) = []
 \<and> handleSubmit_start (js ''localhost'') sample_clock (sample_state\<lparr>inputValue := js ''   ''\<rparr>)
      = (sample_state\<lparr>inputValue := js ''   ''\<rparr>, None)
 \<and> isLoading (sample_state\<lparr>isLoading := True\<rparr>)
 \<and> handleSubmit_start (js ''localhost'') sample_clock (sample_state\<lparr>isLoading := True\<rparr>)
      = (sample_state\<lparr>isLoading := True\<rparr>, None)"
proof -
  have h1: "trim (inputValue (sample_state\<lparr>inputValue := js ''   ''\<rparr>)) = []"
    by (simp add: trim_empty js_def is_space_def)
  have h2: "isLoading (sample_state\<lparr>isLoading := True\<rparr>)"
    by simp
  show ?thesis
    using h1 h2
      C3_guarded_send_is_noop [of "sample_state\<lparr>inputValue := js ''   ''\<rparr>"
        "js ''localhost''" sample_clock sample_clock "Rejected abort_error"]
      C3_guarded_send_is_noop [of "sample_state\<lparr>isLoading := True\<rparr>"
        "js ''localhost''" sample_clock sample_clock "Rejected abort_error"]
    by simp
qed

subsection \<open>C4: the formatter returns formatted and short texts unchanged\<close>

text \<open>
  C4 fails on the code for a text that holds a bullet. The comment above the first
  test of \<open>formatAIResponse\<close> says that a text with bullet points is returned as it
  is, but the marker the test looks for is stored in the source as the code units
  U+00E2, U+20AC, U+00A2, the bytes of the bullet U+2022 read in another encoding.
  A text with the bullet U+2022 and no other marker therefore passes the test. The
  reply below has 355 code units and six sentences; it comes back cut in two
  paragraphs, with a second space after each inner full stop.
\<close>

theorem C4_real_bullet_rewritten:
  "includes_js bulleted_reply [0x2022]
 \<and> \<not> includes_js bulleted_reply bullet
 \<and> \<not> includes_js bulleted_reply bold_marker
 \<and> \<not> includes_js bulleted_reply paragraph_break
 \<and> formatAIResponse bulleted_reply
     = js ''Here are the main points about Rust.  '' @ [0x2022] @ js '' It gives memory safety without a garbage collector.  '' @ [0x2022] @ js '' The compiler checks ownership and borrowing rules before the program runs.''
        @ [0x0A, 0x0A]
        @ js '' '' @ [0x2022] @ js '' Many teams pick it for network services and command line tools.  '' @ [0x2022] @ js '' The learning curve can be steep at first, but the tooling is friendly.  '' @ [0x2022] @ js '' You can try it in the online playground today.''
 \<and> formatAIResponse bulleted_reply \<noteq> bulleted_reply"
proof -
  have inc: "includes_js (bulleted_reply_1 @ bulleted_reply_2 @ r) [0x2022]" for r
    by (simp add: bulleted_reply_1_def bulleted_reply_2_def js_def includes_js_Cons_if
        starts_with_Cons_if del: includes_js.simps(2) starts_with.simps(3))
  have ne: "formatAIResponse bulleted_reply \<noteq> bulleted_reply"
    unfolding bulleted_formatted
    by (simp add: bulleted_reply_def bulleted_reply_1_def bulleted_reply_2_def js_def)
  show ?thesis
    using plain_text_no_markers [OF bulleted_plain] inc ne bulleted_formatted
    by (simp add: bulleted_reply_def)
qed

subsection \<open>C5: the synthesized bullet list\<close>




subsection \<open>C6: the fallback paragraph split\<close>



subsection \<open>C7: the backend locator and the status label\<close>

text \<open>
  C7 as stated fails at the host name \<open>127.0.0.1\<close>: it is not \<open>localhost\<close> and its
  label is \<open>Online\<close>, yet the base URL is the local one, not the production one.
\<close>

theorem C7_counterexample:
  "js ''127.0.0.1'' \<noteq> js ''localhost''
 \<and> status_label (js ''127.0.0.1'') = js ''Online''
 \<and> getBackendURL (js ''127.0.0.1'') = js ''http://localhost:5000''
 \<and> getBackendURL (js ''127.0.0.1'') \<noteq> js ''https://simple-agent-backend.onrender.com''"
  by (simp add: js_def getBackendURL_def status_label_def)

text \<open>
  C7, amended. For every host name: if it is \<open>localhost\<close> or \<open>127.0.0.1\<close> the base URL
  is \<open>http://localhost:5000\<close>, otherwise it is the production URL; the host name
  \<open>localhost\<close> gives the label \<open>Local\<close> and every other host name the label \<open>Online\<close>,
  together with the production URL except at \<open>127.0.0.1\<close>, where the label is
  \<open>Online\<close> and the base URL is the local one.
\<close>

theorem C7_backend_locator:
  "(hostname = js ''localhost'' \<or> hostname = js ''127.0.0.1'' \<longrightarrow>
      getBackendURL hostname = js ''http://localhost:5000'')
 \<and> (hostname \<noteq> js ''localhost'' \<and> hostname \<noteq> js ''127.0.0.1'' \<longrightarrow>
      getBackendURL hostname = js ''https://simple-agent-backend.onrender.com'')
 \<and> (hostname = js ''localhost'' \<longrightarrow> status_label hostname = js ''Local'')
 \<and> (hostname \<noteq> js ''localhost'' \<longrightarrow> status_label hostname = js ''Online'')
 \<and> (hostname = js ''127.0.0.1'' \<longrightarrow>
      status_label hostname = js ''Online'' \<and> getBackendURL hostname = js ''http://localhost:5000'')
 \<and> (hostname \<noteq> js ''localhost'' \<and> hostname \<noteq> js ''127.0.0.1'' \<longrightarrow>
      status_label hostname = js ''Online''
      \<and> getBackendURL hostname = js ''https://simple-agent-backend.onrender.com'')"
  by (simp add: getBackendURL_def status_label_def js_def)

theorem C7_witness:
  "getBackendURL (js ''localhost'') = js ''http://localhost:5000''
 \<and> status_label (js ''localhost'') = js ''Local''
 \<and> js ''127.0.0.1'' \<noteq> js ''localhost''
 \<and> getBackendURL (js ''127.0.0.1'') = js ''http://localhost:5000''
 \<and> status_label (js ''127.0.0.1'') = js ''Online''
 \<and> js ''simple-agent-frontend.onrender.com'' \<noteq> js ''localhost''
 \<and> js ''simple-agent-frontend.onrender.com'' \<noteq> js ''127.0.0.1''
 \<and> status_label (js ''simple-agent-frontend.onrender.com'') = js ''Online''
 \<and> getBackendURL (js ''simple-agent-frontend.onrender.com'')
      = js ''https://simple-agent-backend.onrender.com''"
proof -
  have h: "js ''simple-agent-frontend.onrender.com'' \<noteq> js ''localhost''"
    "js ''simple-agent-frontend.onrender.com'' \<noteq> js ''127.0.0.1''"
    "js ''127.0.0.1'' \<noteq> js ''localhost''"
    by (simp_all add: js_def)
  show ?thesis
    using h C7_backend_locator [of "js ''localhost''"] C7_backend_locator [of "js ''127.0.0.1''"]
      C7_backend_locator [of "js ''simple-agent-frontend.onrender.com''"]
    by simp
qed

subsection \<open>C8: the tool directory\<close>

text \<open>
  C8. On a successful response whose JSON body has a \<open>tools\<close> field that is an
  array, the tool list becomes exactly that array and no error is recorded. On a
  rejected request, a response that is not ok, a body that is not JSON, or a body
  whose \<open>tools\<close> field is absent or not an array, the error state is set and the
  tool list becomes the fallback list, which has eight distinct entries. In every
  case the loading flag is cleared.
\<close>

theorem C8_tool_directory:
  "(ok r \<and> body_json r = Inr data \<and> tools_array data = Some xs \<longrightarrow>
      availableTools (fetchAvailableTools hostname te (Resolved r) st) = xs
      \<and> toolsError (fetchAvailableTools hostname te (Resolved r) st) = None)
 \<and> (res = Rejected e \<or> (res = Resolved r \<and> \<not> ok r)
      \<or> (res = Resolved r \<and> body_json r = Inl e)
      \<or> (res = Resolved r \<and> body_json r = Inr data \<and> tools_array data = None) \<longrightarrow>
      toolsError (fetchAvailableTools hostname te res st) \<noteq> None
      \<and> availableTools (fetchAvailableTools hostname te res st) = fallback_tools)
 \<and> length fallback_tools = 8 \<and> distinct fallback_tools
 \<and> \<not> toolsLoading (fetchAvailableTools hostname te res st)"
proof -
  have a: "availableTools (fetchAvailableTools hostname te (Resolved r) st) = xs
      \<and> toolsError (fetchAvailableTools hostname te (Resolved r) st) = None"
    if "ok r" "body_json r = Inr data" "tools_array data = Some xs"
    using tools_try_array [OF that, of te]
    by (simp add: fetchAvailableTools_def fetchAvailableTools_finish_def
        fetchAvailableTools_start_def)
  have fail: "toolsError (fetchAvailableTools hostname te res st) \<noteq> None
      \<and> availableTools (fetchAvailableTools hostname te res st) = fallback_tools"
    if "tools_try te res = Inl e'" for e'
    using that
    by (simp add: fetchAvailableTools_def fetchAvailableTools_finish_def
        fetchAvailableTools_start_def)
  have b: "\<exists>e'. tools_try te res = Inl e'"
    if "res = Rejected e \<or> (res = Resolved r \<and> \<not> ok r)
      \<or> (res = Resolved r \<and> body_json r = Inl e)
      \<or> (res = Resolved r \<and> body_json r = Inr data \<and> tools_array data = None)"
    using that tools_try_no_array [of r data te]
    by (auto simp: tools_try_def)
  have c: "length fallback_tools = 8 \<and> distinct fallback_tools"
    by (simp add: fallback_tools_def js_def)
  have d: "\<not> toolsLoading (fetchAvailableTools hostname te res st)"
    by (simp add: fetchAvailableTools_def fetchAvailableTools_finish_def split: sum.splits)
  show ?thesis using a b c d fail by blast
qed

theorem C8_witness:
  "availableTools (fetchAvailableTools (js ''localhost'') null_read_error
      (Resolved (tools_response 200 (JObject [(js ''tools'', JArray three_tools)]))) sample_state)
     = three_tools
 \<and> availableTools (fetchAvailableTools (js ''localhost'') null_read_error
      (Rejected network_error) sample_state) = fallback_tools
 \<and> toolsError (fetchAvailableTools (js ''localhost'') null_read_error
      (Rejected network_error) sample_state) \<noteq> None
 \<and> availableTools (fetchAvailableTools (js ''localhost'') null_read_error
      (Resolved (tools_response 500 (JObject []))) sample_state) = fallback_tools
 \<and> availableTools (fetchAvailableTools (js ''localhost'') null_read_error
      (Resolved (tools_response 200 (JObject [(js ''tools'', JString (js ''none''))])))
      sample_state) = fallback_tools
 \<and> availableTools (fetchAvailableTools (js ''localhost'') null_read_error
      (Resolved (tools_response 200 JNull)) sample_state) = fallback_tools"
proof -
  have ok: "ok (tools_response 200 d)" "body_json (tools_response 200 d) = Inr d"
    "\<not> ok (tools_response 500 d)" for d
    by (simp_all add: tools_response_def)
  have arr: "tools_array (JObject [(js ''tools'', JArray three_tools)]) = Some three_tools"
    "tools_array (JObject [(js ''tools'', JString (js ''none''))]) = None"
    "tools_array JNull = None"
    by (simp_all add: tools_array_def)
  show ?thesis
    using ok arr
      C8_tool_directory [of "tools_response 200 (JObject [(js ''tools'', JArray three_tools)])"
        "JObject [(js ''tools'', JArray three_tools)]" three_tools "js ''localhost''"
        null_read_error sample_state "Rejected network_error" network_error]
      C8_tool_directory [of "tools_response 500 (JObject [])" "JObject []" "[]" "js ''localhost''"
        null_read_error sample_state "Resolved (tools_response 500 (JObject []))" network_error]
      C8_tool_directory [of "tools_response 200 (JObject [(js ''tools'', JString (js ''none''))])"
        "JObject [(js ''tools'', JString (js ''none''))]" "[]" "js ''localhost''"
        null_read_error sample_state
        "Resolved (tools_response 200 (JObject [(js ''tools'', JString (js ''none''))]))"
        network_error]
      C8_tool_directory [of "tools_response 200 JNull" JNull "[]" "js ''localhost''"
        null_read_error sample_state "Resolved (tools_response 200 JNull)" network_error]
    by simp
qed

subsection \<open>C9: the tools used by a reply\<close>

text \<open>
  C9. For every successful chat response with a non-empty \<open>tool_calls\<close> list, the
  \<open>toolsUsed\<close> list of the appended bot message is the list of the names of the
  tool-call records, in the order of the response and with repetitions kept; when
  \<open>tool_calls\<close> is absent, \<open>null\<close> or empty, \<open>toolsUsed\<close> is the empty list.
\<close>

theorem C9_tools_used:
  "ok r \<Longrightarrow> body_json r = Inr data \<Longrightarrow>
   (tool_calls data = Value tcs \<and> tcs \<noteq> [] \<longrightarrow>
      toolsUsed (last (messages (handleSubmit_finish clk (Resolved r) st)))
        = Some (map tc_name tcs))
 \<and> (tool_calls data = Absent \<or> tool_calls data = Null \<or> tool_calls data = Value [] \<longrightarrow>
      toolsUsed (last (messages (handleSubmit_finish clk (Resolved r) st))) = Some [])"
  by (auto simp: handleSubmit_finish_def chat_try_def toolsUsedByBot_def Let_def)

theorem C9_witness:
  "ok (response_with 200 sample_reply) \<and> body_json (response_with 200 sample_reply) = Inr sample_reply
 \<and> toolsUsed (last (messages (handleSubmit_finish sample_clock
      (Resolved (response_with 200 sample_reply)) sample_state)))
     = Some [js ''firecrawl_search'', js ''firecrawl_scrape'', js ''firecrawl_search'']
 \<and> toolsUsed (last (messages (handleSubmit_finish sample_clock
      (Resolved (response_with 200 empty_reply)) sample_state))) = Some []"
proof -
  have h: "ok (response_with 200 d)" "body_json (response_with 200 d) = Inr d" for d
    by (simp_all add: response_with_def)
  have tc: "tool_calls sample_reply
      = Value [\<lparr>tc_name = js ''firecrawl_search''\<rparr>, \<lparr>tc_name = js ''firecrawl_scrape''\<rparr>,
               \<lparr>tc_name = js ''firecrawl_search''\<rparr>]"
    "tool_calls empty_reply = Absent"
    by (simp_all add: sample_reply_def empty_reply_def)
  show ?thesis
    using h tc
      C9_tools_used [OF h, of sample_reply
        "[\<lparr>tc_name = js ''firecrawl_search''\<rparr>, \<lparr>tc_name = js ''firecrawl_scrape''\<rparr>,
          \<lparr>tc_name = js ''firecrawl_search''\<rparr>]" sample_clock sample_state]
      C9_tools_used [OF h, of empty_reply "[]" sample_clock sample_state]
    by simp
qed

subsection \<open>C10: the placeholder for a missing reply text\<close>

text \<open>
  C10. For every successful chat response whose \<open>ai_message\<close> is absent, \<open>null\<close> or
  the empty string, the content of the appended bot message is the placeholder
  \<open>(No direct textual response)\<close>, which the formatter returns unchanged.
\<close>

theorem C10_placeholder:
  "ok r \<Longrightarrow> body_json r = Inr data \<Longrightarrow>
   ai_message data = Absent \<or> ai_message data = Null \<or> ai_message data = Value [] \<Longrightarrow>
   bot_reply clk (Resolved r) st = placeholder
   \<and> formatAIResponse placeholder = placeholder
   \<and> placeholder = js ''(No direct textual response)''"
proof -
  have fmt: "formatAIResponse placeholder = placeholder"
    by (simp add: formatAIResponse_def placeholder_def js_def bullet_def bold_marker_def
        paragraph_break_def Let_def)
  assume "ok r" "body_json r = Inr data"
    "ai_message data = Absent \<or> ai_message data = Null \<or> ai_message data = Value []"
  then have "bot_reply clk (Resolved r) st = formatAIResponse placeholder"
    by (auto simp: bot_reply_def handleSubmit_finish_def chat_try_def botMessageContent_def)
  with fmt show ?thesis by (simp add: placeholder_def)
qed

theorem C10_witness:
  "ok (response_with 200 empty_reply) \<and> body_json (response_with 200 empty_reply) = Inr empty_reply
 \<and> ai_message empty_reply = Absent
 \<and> bot_reply sample_clock (Resolved (response_with 200 empty_reply)) sample_state
     = js ''(No direct textual response)''
 \<and> bot_reply sample_clock
      (Resolved (response_with 200 (empty_reply\<lparr>ai_message := Value []\<rparr>))) sample_state
     = js ''(No direct textual response)''
 \<and> bot_reply sample_clock
      (Resolved (response_with 200 (empty_reply\<lparr>ai_message := Null\<rparr>))) sample_state
     = js ''(No direct textual response)''"
proof -
  have h: "ok (response_with 200 d)" "body_json (response_with 200 d) = Inr d" for d
    by (simp_all add: response_with_def)
  have a: "ai_message empty_reply = Absent" by (simp add: empty_reply_def)
  show ?thesis
    using h a
      C10_placeholder [OF h, of empty_reply sample_clock sample_state]
      C10_placeholder [OF h, of "empty_reply\<lparr>ai_message := Value []\<rparr>" sample_clock sample_state]
      C10_placeholder [OF h, of "empty_reply\<lparr>ai_message := Null\<rparr>" sample_clock sample_state]
    by simp
qed

end
